theory Spec2Isabelle
  imports Main "HOL-Library.Sublist"
begin

section \<open>Documents of the sync endpoint\<close>

text \<open>
  The endpoint \<^verbatim>\<open>netlify/functions/sync.js\<close> keeps one document (\<^verbatim>\<open>_id: 'main'\<close>)
  and merges every posted document into it. The model covers documents of the shape the
  handler navigates: every top-level field is either missing (\<^verbatim>\<open>undefined\<close>, here
  \<open>None\<close>) or a container of the expected kind; profiles, progress records, reports and
  the inner objects of \<^verbatim>\<open>dailyRevisionScores\<close> and \<^verbatim>\<open>revisionProgress\<close> are objects;
  \<^verbatim>\<open>totalXP\<close> is a number or missing, and a \<^verbatim>\<open>reportId\<close> is a string.

  \<^item> A JavaScript object is an association list of its own properties, in insertion
    order; a key that the list binds twice denotes its first binding, and \<open>own_entries\<close>
    enumerates every key once, as \<^verbatim>\<open>Object.keys\<close> does. The objects of a parsed or
    stored document share no parts, so updating an inner object in place and storing
    an updated copy of it give the same document.
  \<^item> Reading \<^verbatim>\<open>ob[key]\<close> goes through the prototype chain: \<open>js_read\<close> gives the own
    property, or else \<open>Builtin\<close> for the names that every object inherits from
    \<^verbatim>\<open>Object.prototype\<close> (\<open>inherited\<close>), or else \<open>Undefined\<close>. The inherited values are
    functions, and \<^verbatim>\<open>Object.prototype\<close> itself for \<^verbatim>\<open>__proto__\<close>: all of them truthy and
    none with a \<^verbatim>\<open>totalXP\<close>. The built-in objects are taken as the runtime provides
    them when the request starts.
  \<^item> Assigning \<^verbatim>\<open>ob[key] = v\<close> is \<open>js_assign\<close>: it sets an own property, except for the
    key \<^verbatim>\<open>__proto__\<close> on an object without such an own property, where the inherited
    setter runs and the object gets no property.
  \<^item> A loop that finds a built-in object where it expects an inner object writes onto
    that built-in object (\<^verbatim>\<open>Object\<close>, \<^verbatim>\<open>Object.prototype\<close>, a method) and not into the
    document. The model leaves the document as it is there and does not follow what
    the changed built-in object does to later reads; \<open>plain_outer_keys\<close> holds of the
    incoming documents that cause no such write.
  \<^item> Numbers are the integer-valued doubles, as \<open>int\<close>; fractions are not modelled.
    \<open>or0\<close> is \<^verbatim>\<open>x || 0\<close> on a \<^verbatim>\<open>totalXP\<close>, and \<open>js_gt\<close> is \<^verbatim>\<open>>\<close> with a left
    operand that may be \<^verbatim>\<open>undefined\<close>, which is greater than nothing.
  \<^item> A score is such a number, an infinity (\<open>Infinity True\<close> is the positive one),
    \<^verbatim>\<open>NaN\<close>, or a non-empty string, whose characters the model does not track
    (\<open>Text\<close>: what \<^verbatim>\<open>+\<close> gives when it meets a built-in object or a string). \<open>js_add\<close>
    is \<^verbatim>\<open>+\<close> on scores: \<open>round_double\<close> rounds the exact sum of two numbers to 53
    significant bits, ties to even, and a sum of magnitude \<open>2 ^ 1024\<close> or more is an
    infinity. \<open>score_or0\<close> is \<^verbatim>\<open>x || 0\<close> on a score.
  \<^item> An attempt record is any JSON value (\<open>json\<close>), with the truthiness of JavaScript.
  \<^item> The payload the merge never inspects (set definitions, progress records, the
    other fields of profiles and reports) is the type parameter \<open>'a\<close>.
  \<^item> Two objects are compared as mappings: by the own properties they hold.
\<close>

type_synonym 'v obj = "(string \<times> 'v) list"

fun set_prop :: "string \<Rightarrow> 'v \<Rightarrow> 'v obj \<Rightarrow> 'v obj" where
  "set_prop k v [] = [(k, v)]"
| "set_prop k v ((k', v') # ps) =
     (if k' = k then (k, v) # ps else (k', v') # set_prop k v ps)"

fun own_entries :: "'v obj \<Rightarrow> (string \<times> 'v) list" where
  "own_entries [] = []"
| "own_entries ((k, v) # ps) = (k, v) # own_entries (filter (\<lambda>p. fst p \<noteq> k) ps)"

fun opt_get :: "'v obj option \<Rightarrow> string \<Rightarrow> 'v option" where
  "opt_get None k = None"
| "opt_get (Some ob) k = map_of ob k"

fun or_empty :: "'v obj option \<Rightarrow> 'v obj" where
  "or_empty None = []"
| "or_empty (Some ob) = ob"

fun or_empty_list :: "'r list option \<Rightarrow> 'r list" where
  "or_empty_list None = []"
| "or_empty_list (Some rs) = rs"

definition inherited :: "string list" where
  "inherited =
     [''constructor'', ''__defineGetter__'', ''__defineSetter__'', ''hasOwnProperty'',
      ''__lookupGetter__'', ''__lookupSetter__'', ''isPrototypeOf'',
      ''propertyIsEnumerable'', ''toString'', ''valueOf'', ''__proto__'',
      ''toLocaleString'']"

datatype 'v slot = Undefined | Own 'v | Builtin

definition js_read :: "'v obj \<Rightarrow> string \<Rightarrow> 'v slot" where
  "js_read ob k =
     (case map_of ob k of
        Some v \<Rightarrow> Own v
      | None \<Rightarrow> if k \<in> set inherited then Builtin else Undefined)"

definition js_assign :: "string \<Rightarrow> 'v \<Rightarrow> 'v obj \<Rightarrow> 'v obj" where
  "js_assign k v ob =
     (if k = ''__proto__'' \<and> map_of ob k = None then ob else set_prop k v ob)"

datatype json =
    JNull
  | JBool bool
  | JNum int
  | JStr string
  | JArr "json list"
  | JObj "(string \<times> json) list"

fun truthy_json :: "json \<Rightarrow> bool" where
  "truthy_json JNull = False"
| "truthy_json (JBool b) = b"
| "truthy_json (JNum n) = (n \<noteq> 0)"
| "truthy_json (JStr s) = (s \<noteq> [])"
| "truthy_json (JArr xs) = True"
| "truthy_json (JObj kvs) = True"

function double_ulp :: "nat \<Rightarrow> nat" where
  "double_ulp m = (if m < 2 ^ 53 then 1 else 2 * double_ulp (m div 2))"
  by pat_completeness auto
termination
  by (relation "measure (\<lambda>m. m)") auto

declare double_ulp.simps [simp del]

definition round_double :: "int \<Rightarrow> int" where
  "round_double n =
     (let m = nat \<bar>n\<bar>; u = double_ulp m; q = m div u; r = m mod u;
          q' = (if u < 2 * r \<or> (2 * r = u \<and> odd q) then q + 1 else q)
      in sgn n * int (q' * u))"

datatype score = Num int | Infinity bool | NaN | Text

definition sum_to_double :: "int \<Rightarrow> score" where
  "sum_to_double n =
     (let r = round_double n in if 2 ^ 1024 \<le> \<bar>r\<bar> then Infinity (0 < r) else Num r)"

fun js_add :: "score \<Rightarrow> score \<Rightarrow> score" where
  "js_add Text b = Text"
| "js_add a Text = Text"
| "js_add NaN b = NaN"
| "js_add a NaN = NaN"
| "js_add (Infinity s) (Infinity t) = (if s = t then Infinity s else NaN)"
| "js_add (Infinity s) (Num b) = Infinity s"
| "js_add (Num a) (Infinity t) = Infinity t"
| "js_add (Num a) (Num b) = sum_to_double (a + b)"

fun score_or0 :: "score \<Rightarrow> score" where
  "score_or0 (Num n) = (if n = 0 then Num 0 else Num n)"
| "score_or0 NaN = Num 0"
| "score_or0 (Infinity s) = Infinity s"
| "score_or0 Text = Text"

fun or0 :: "int option \<Rightarrow> int" where
  "or0 None = 0"
| "or0 (Some n) = (if n = 0 then 0 else n)"

fun js_gt :: "int option \<Rightarrow> int \<Rightarrow> bool" where
  "js_gt None b = False"
| "js_gt (Some a) b = (b < a)"

definition spread_into :: "'v obj option \<Rightarrow> 'v obj \<Rightarrow> 'v obj" where
  "spread_into src acc = fold (\<lambda>(k, v). set_prop k v) (own_entries (or_empty src)) acc"

fun lookup2 :: "'v obj obj option \<Rightarrow> string \<Rightarrow> string \<Rightarrow> 'v option" where
  "lookup2 m a b = (case opt_get m a of None \<Rightarrow> None | Some inner \<Rightarrow> map_of inner b)"

record 'a profile =
  totalXP :: "int option"
  profile_rest :: 'a

record 'a report =
  reportId :: string
  report_rest :: 'a

record 'a doc =
  doc_id :: "string option"
  questionSets :: "'a obj option"
  playerProfiles :: "'a profile obj option"
  dailyRevisionScores :: "score obj obj option"
  practiceHistory :: "json obj option"
  revisionProgress :: "'a obj obj option"
  reportedQuestions :: "'a report list option"
  lastUpdated :: "string option"

definition empty_doc :: "'a doc" where
  "empty_doc = \<lparr>doc_id = None, questionSets = None, playerProfiles = None,
     dailyRevisionScores = None, practiceHistory = None, revisionProgress = None,
     reportedQuestions = None, lastUpdated = None\<rparr>"

fun or_empty_doc :: "'a doc option \<Rightarrow> 'a doc" where
  "or_empty_doc None = empty_doc"
| "or_empty_doc (Some d) = d"

definition reports :: "'a doc \<Rightarrow> 'a report list" where
  "reports d = or_empty_list (reportedQuestions d)"

section \<open>The merge of a POST\<close>

text \<open>
  The handler builds \<^verbatim>\<open>mergedData\<close> from copies of the stored fields and then runs one
  loop per field over the incoming document; every loop writes to its own field only.
  The model computes each field by its own function, named after the field, and \<open>merge\<close>
  puts them together. \<open>now\<close> is the time stamp \<^verbatim>\<open>new Date().toISOString()\<close>.
\<close>

definition merge_questionSets :: "'a obj option \<Rightarrow> 'a obj option \<Rightarrow> 'a obj" where
  "merge_questionSets existing incoming = spread_into incoming (spread_into existing [])"

definition merge_player ::
  "'a profile obj option \<Rightarrow> string \<times> 'a profile \<Rightarrow> 'a profile obj \<Rightarrow> 'a profile obj" where
  "merge_player existing = (\<lambda>(player, incomingPlayer) merged.
     (let existingPlayer =
            (case existing of None \<Rightarrow> Undefined | Some ob \<Rightarrow> js_read ob player)
      in case existingPlayer of
           Undefined \<Rightarrow> js_assign player incomingPlayer merged
         | Own p \<Rightarrow>
             if js_gt (totalXP incomingPlayer) (or0 (totalXP p))
             then js_assign player incomingPlayer merged
             else merged
         | Builtin \<Rightarrow>
             if js_gt (totalXP incomingPlayer) (or0 None)
             then js_assign player incomingPlayer merged
             else merged))"

definition merge_playerProfiles ::
  "'a profile obj option \<Rightarrow> 'a profile obj option \<Rightarrow> 'a profile obj" where
  "merge_playerProfiles existing incoming =
     fold (merge_player existing) (own_entries (or_empty incoming)) (spread_into existing [])"

definition add_score :: "string \<times> score \<Rightarrow> score obj \<Rightarrow> score obj" where
  "add_score = (\<lambda>(player, score) day.
     (case js_read day player of
        Undefined \<Rightarrow> js_assign player (js_add (Num 0) score) day
      | Own old \<Rightarrow> js_assign player (js_add (score_or0 old) score) day
      | Builtin \<Rightarrow> js_assign player Text day))"

definition merge_date :: "string \<times> score obj \<Rightarrow> score obj obj \<Rightarrow> score obj obj" where
  "merge_date = (\<lambda>(date, scores) merged.
     (case js_read merged date of
        Undefined \<Rightarrow> js_assign date (fold add_score (own_entries scores) []) merged
      | Own day \<Rightarrow> js_assign date (fold add_score (own_entries scores) day) merged
      | Builtin \<Rightarrow> merged))"

definition merge_dailyRevisionScores ::
  "score obj obj option \<Rightarrow> score obj obj option \<Rightarrow> score obj obj" where
  "merge_dailyRevisionScores existing incoming =
     fold merge_date (own_entries (or_empty incoming)) (spread_into existing [])"

definition merge_attempt :: "string \<times> json \<Rightarrow> json obj \<Rightarrow> json obj" where
  "merge_attempt = (\<lambda>(key, attempt) merged.
     (case js_read merged key of
        Undefined \<Rightarrow> js_assign key attempt merged
      | Own old \<Rightarrow> if \<not> truthy_json old then js_assign key attempt merged else merged
      | Builtin \<Rightarrow> merged))"

definition merge_practiceHistory :: "json obj option \<Rightarrow> json obj option \<Rightarrow> json obj" where
  "merge_practiceHistory existing incoming =
     fold merge_attempt (own_entries (or_empty incoming)) (spread_into existing [])"

definition merge_progress :: "string \<times> 'a obj \<Rightarrow> 'a obj obj \<Rightarrow> 'a obj obj" where
  "merge_progress = (\<lambda>(player, items) merged.
     (case js_read merged player of
        Undefined \<Rightarrow>
          js_assign player (fold (\<lambda>(key, v). js_assign key v) (own_entries items) []) merged
      | Own mine \<Rightarrow>
          js_assign player (fold (\<lambda>(key, v). js_assign key v) (own_entries items) mine) merged
      | Builtin \<Rightarrow> merged))"

definition merge_revisionProgress ::
  "'a obj obj option \<Rightarrow> 'a obj obj option \<Rightarrow> 'a obj obj" where
  "merge_revisionProgress existing incoming =
     fold merge_progress (own_entries (or_empty incoming)) (spread_into existing [])"

definition plain_outer_keys :: "'a doc \<Rightarrow> bool" where
  "plain_outer_keys incoming =
     (list_all (\<lambda>date. date \<notin> set inherited)
        (map fst (or_empty (dailyRevisionScores incoming)))
      \<and> list_all (\<lambda>player. player \<notin> set inherited)
        (map fst (or_empty (revisionProgress incoming))))"

definition push_report :: "'a report \<Rightarrow> 'a report list \<Rightarrow> 'a report list" where
  "push_report newReport merged =
     (if list_ex (\<lambda>existingReport. reportId existingReport = reportId newReport) merged
      then merged else merged @ [newReport])"

definition merge_reportedQuestions ::
  "'a report list option \<Rightarrow> 'a report list option \<Rightarrow> 'a report list" where
  "merge_reportedQuestions existing incoming =
     fold push_report (or_empty_list incoming) (or_empty_list existing)"

definition merge :: "string \<Rightarrow> 'a doc \<Rightarrow> 'a doc \<Rightarrow> 'a doc" where
  "merge now existingData incomingData =
     \<lparr>doc_id = Some ''main'',
      questionSets =
        Some (merge_questionSets (questionSets existingData) (questionSets incomingData)),
      playerProfiles =
        Some (merge_playerProfiles (playerProfiles existingData) (playerProfiles incomingData)),
      dailyRevisionScores =
        Some (merge_dailyRevisionScores (dailyRevisionScores existingData)
               (dailyRevisionScores incomingData)),
      practiceHistory =
        Some (merge_practiceHistory (practiceHistory existingData)
               (practiceHistory incomingData)),
      revisionProgress =
        Some (merge_revisionProgress (revisionProgress existingData)
               (revisionProgress incomingData)),
      reportedQuestions =
        Some (merge_reportedQuestions (reportedQuestions existingData)
               (reportedQuestions incomingData)),
      lastUpdated = Some now\<rparr>"

section \<open>The handler\<close>

text \<open>
  The handler talks to MongoDB through \<^verbatim>\<open>connectToDatabase\<close>, \<^verbatim>\<open>findOne\<close> and
  \<^verbatim>\<open>updateOne\<close>. Each of them can reject; \<open>db_env\<close> says which of them succeed during
  one invocation. The server state is the module variable \<^verbatim>\<open>cachedClient\<close> (here: whether
  a client is cached) and the stored document. An invocation returns the response, the
  new server state and the database calls it made, in order. The request body is given as
  \<^verbatim>\<open>JSON.parse\<close> returns it: \<open>None\<close> when parsing throws. Everything thrown inside the
  \<^verbatim>\<open>try\<close> block becomes the response 500; its \<^verbatim>\<open>message\<close> field and the console output
  are left out.
\<close>

datatype db_call = Connect | FindOne | UpdateOne

record db_env =
  connect_ok :: bool
  find_ok :: bool
  update_ok :: bool

record 'a server =
  cachedClient :: bool
  store :: "'a doc option"

datatype 'a payload =
    EmptyBody
  | StoredDocument "'a doc"
  | EmptyStructure string
  | Synced nat nat
  | ErrorBody string

record 'a response =
  statusCode :: nat
  headers :: "(string \<times> string) list"
  body :: "'a payload"

record 'a event =
  httpMethod :: string
  parsed_body :: "'a doc option"

definition cors_headers :: "(string \<times> string) list" where
  "cors_headers =
     [(''Access-Control-Allow-Origin'', ''*''),
      (''Access-Control-Allow-Headers'', ''Content-Type''),
      (''Access-Control-Allow-Methods'', ''GET, POST, OPTIONS'')]"

definition connectToDatabase :: "db_env \<Rightarrow> 'a server \<Rightarrow> unit + 'a server \<times> db_call list" where
  "connectToDatabase env srv =
     (if cachedClient srv then Inr (srv, [])
      else if connect_ok env then Inr (srv\<lparr>cachedClient := True\<rparr>, [Connect])
      else Inl ())"

definition internal_error :: "'a response" where
  "internal_error =
     \<lparr>statusCode = 500, headers = cors_headers, body = ErrorBody ''Internal server error''\<rparr>"

definition handler ::
  "db_env \<Rightarrow> string \<Rightarrow> 'a event \<Rightarrow> 'a server \<Rightarrow> 'a response \<times> 'a server \<times> db_call list" where
  "handler env now event srv =
     (if httpMethod event = ''OPTIONS''
      then (\<lparr>statusCode = 200, headers = cors_headers, body = EmptyBody\<rparr>, srv, [])
      else
        (case connectToDatabase env srv of
           Inl _ \<Rightarrow> (internal_error, srv, [Connect])
         | Inr (srv1, calls) \<Rightarrow>
             if httpMethod event = ''GET'' then
               (if \<not> find_ok env then (internal_error, srv1, calls @ [FindOne])
                else
                  (case store srv1 of
                     None \<Rightarrow>
                       (\<lparr>statusCode = 200, headers = cors_headers,
                         body = EmptyStructure now\<rparr>, srv1, calls @ [FindOne])
                   | Some data \<Rightarrow>
                       (\<lparr>statusCode = 200, headers = cors_headers,
                         body = StoredDocument data\<rparr>, srv1, calls @ [FindOne])))
             else if httpMethod event = ''POST'' then
               (case parsed_body event of
                  None \<Rightarrow> (internal_error, srv1, calls)
                | Some incomingData \<Rightarrow>
                    if \<not> find_ok env then (internal_error, srv1, calls @ [FindOne])
                    else
                      (let existingData = or_empty_doc (store srv1);
                           mergedData = merge now existingData incomingData
                       in if \<not> update_ok env
                          then (internal_error, srv1, calls @ [FindOne, UpdateOne])
                          else
                            (\<lparr>statusCode = 200, headers = cors_headers,
                              body = Synced
                                (length (own_entries (or_empty (playerProfiles mergedData))))
                                (length (own_entries (or_empty (questionSets mergedData))))\<rparr>,
                             srv1\<lparr>store := Some mergedData\<rparr>,
                             calls @ [FindOne, UpdateOne])))
             else
               (\<lparr>statusCode = 405, headers = cors_headers,
                 body = ErrorBody ''Method not allowed''\<rparr>, srv1, calls)))"

section \<open>Documents with a single field\<close>

text \<open>
  The document \<^verbatim>\<open>{field: value}\<close>, every other field missing; the examples below are
  built from these.
\<close>

definition only_questionSets :: "'a obj \<Rightarrow> 'a doc" where
  "only_questionSets qs = empty_doc\<lparr>questionSets := Some qs\<rparr>"

definition only_playerProfiles :: "'a profile obj \<Rightarrow> 'a doc" where
  "only_playerProfiles ps = empty_doc\<lparr>playerProfiles := Some ps\<rparr>"


definition only_practiceHistory :: "json obj \<Rightarrow> 'a doc" where
  "only_practiceHistory h = empty_doc\<lparr>practiceHistory := Some h\<rparr>"

definition only_revisionProgress :: "'a obj obj \<Rightarrow> 'a doc" where
  "only_revisionProgress rp = empty_doc\<lparr>revisionProgress := Some rp\<rparr>"

definition only_reportedQuestions :: "'a report list \<Rightarrow> 'a doc" where
  "only_reportedQuestions rs = empty_doc\<lparr>reportedQuestions := Some rs\<rparr>"

section \<open>Objects as finite maps\<close>

lemma map_of_set_prop: "map_of (set_prop k v ps) = (map_of ps)(k \<mapsto> v)"
  by (induction ps) (auto simp: fun_eq_iff)

lemma own_entries_keys: "fst ` set (own_entries ps) = fst ` set ps"
  by (induction ps rule: own_entries.induct) (auto simp: image_iff)

lemma distinct_own_entries: "distinct (map fst (own_entries ps))"
proof (induction ps rule: own_entries.induct)
  case 1
  show ?case by simp
next
  case (2 k v ps)
  have "k \<notin> fst ` set (filter (\<lambda>p. fst p \<noteq> k) ps)" by auto
  with 2 show ?case by (simp add: own_entries_keys del: set_filter)
qed

lemma map_of_filter_neq:
  "map_of (filter (\<lambda>p. fst p \<noteq> k) ps) k' = (if k' = k then None else map_of ps k')"
  by (induction ps) auto

lemma map_of_own_entries: "map_of (own_entries ps) = map_of ps"
  by (induction ps rule: own_entries.induct) (auto simp: fun_eq_iff map_of_filter_neq)

text \<open>
  A \<^verbatim>\<open>forEach\<close> over the keys of an object whose step only changes the property it is
  called with: the result at a key depends on the object's value there and on what the
  accumulator held there.
\<close>

lemma fold_entries:
  assumes step: "\<And>k v acc k'. map_of (f (k, v) acc) k' =
                   (if k' = k then g k v (map_of acc k) else map_of acc k')"
    and dist: "distinct (map fst xs)"
  shows "map_of (fold f xs acc) k =
           (case map_of xs k of None \<Rightarrow> map_of acc k | Some v \<Rightarrow> g k v (map_of acc k))"
  using dist
proof (induction xs arbitrary: acc)
  case Nil
  show ?case by simp
next
  case (Cons x xs)
  obtain k0 v0 where x: "x = (k0, v0)" by (cases x)
  from Cons.prems have notin: "k0 \<notin> fst ` set xs" and d: "distinct (map fst xs)"
    by (auto simp: x)
  from notin have none: "map_of xs k0 = None" by (simp add: map_of_eq_None_iff)
  show ?case
    using Cons.IH [OF d, of "f (k0, v0) acc"] none
    by (auto simp: x step split: option.splits)
qed

lemma fold_own_entries:
  assumes "\<And>k v acc k'. map_of (f (k, v) acc) k' =
                   (if k' = k then g k v (map_of acc k) else map_of acc k')"
  shows "map_of (fold f (own_entries ob) acc) k =
           (case map_of ob k of None \<Rightarrow> map_of acc k | Some v \<Rightarrow> g k v (map_of acc k))"
  using fold_entries [where f = f and g = g, OF assms distinct_own_entries, of ob acc k]
  by (simp add: map_of_own_entries)

lemma map_of_spread_into:
  "map_of (spread_into src acc) k =
     (case opt_get src k of None \<Rightarrow> map_of acc k | Some v \<Rightarrow> Some v)"
proof -
  have "map_of (fold (\<lambda>(k, v). set_prop k v) (own_entries (or_empty src)) acc) k =
     (case map_of (or_empty src) k of None \<Rightarrow> map_of acc k | Some v \<Rightarrow> Some v)"
    by (rule fold_own_entries) (simp add: map_of_set_prop)
  then show ?thesis by (cases src) (simp_all add: spread_into_def)
qed

section \<open>What each field of the merged document holds\<close>

lemma map_of_merge_questionSets:
  "map_of (merge_questionSets existing incoming) k =
     (case opt_get incoming k of None \<Rightarrow> opt_get existing k | Some v \<Rightarrow> Some v)"
  by (simp add: merge_questionSets_def map_of_spread_into split: option.splits)

lemma proto_inherited: "''__proto__'' \<in> set inherited"
  by (simp add: inherited_def)

lemma js_read_plain:
  "k \<notin> set inherited \<Longrightarrow>
     js_read ob k = (case map_of ob k of None \<Rightarrow> Undefined | Some v \<Rightarrow> Own v)"
  by (simp add: js_read_def split: option.splits)

lemma js_read_own: "map_of ob k = Some v \<Longrightarrow> js_read ob k = Own v"
  by (simp add: js_read_def)

lemma map_of_js_assign:
  "map_of (js_assign k v ob) k' =
     (if k' = k \<and> \<not> (k = ''__proto__'' \<and> map_of ob k = None) then Some v
      else map_of ob k')"
  by (auto simp: js_assign_def map_of_set_prop)

lemma map_of_merge_player:
  "map_of (merge_player existing (k, ip) acc) k' =
     (if k' = k
      then (if (case (case existing of None \<Rightarrow> Undefined | Some ob \<Rightarrow> js_read ob k) of
                  Undefined \<Rightarrow> True
                | Own p \<Rightarrow> js_gt (totalXP ip) (or0 (totalXP p))
                | Builtin \<Rightarrow> js_gt (totalXP ip) 0)
                \<and> \<not> (k = ''__proto__'' \<and> map_of acc k = None)
            then Some ip else map_of acc k)
      else map_of acc k')"
  by (simp add: merge_player_def map_of_js_assign Let_def split: slot.splits)

lemma map_of_merge_playerProfiles:
  "map_of (merge_playerProfiles existing incoming) k =
     (case opt_get incoming k of
        None \<Rightarrow> opt_get existing k
      | Some ip \<Rightarrow>
          if (case (case existing of None \<Rightarrow> Undefined | Some ob \<Rightarrow> js_read ob k) of
                Undefined \<Rightarrow> True
              | Own p \<Rightarrow> js_gt (totalXP ip) (or0 (totalXP p))
              | Builtin \<Rightarrow> js_gt (totalXP ip) 0)
              \<and> \<not> (k = ''__proto__'' \<and> opt_get existing k = None)
          then Some ip else opt_get existing k)"
proof -
  let ?g = "\<lambda>k ip old.
     if (case (case existing of None \<Rightarrow> Undefined | Some ob \<Rightarrow> js_read ob k) of
           Undefined \<Rightarrow> True
         | Own p \<Rightarrow> js_gt (totalXP ip) (or0 (totalXP p))
         | Builtin \<Rightarrow> js_gt (totalXP ip) 0)
         \<and> \<not> (k = ''__proto__'' \<and> old = None)
     then Some ip else old"
  have main: "map_of (fold (merge_player existing) (own_entries (or_empty incoming))
          (spread_into existing [])) k =
     (case map_of (or_empty incoming) k of None \<Rightarrow> map_of (spread_into existing []) k
      | Some v \<Rightarrow> ?g k v (map_of (spread_into existing []) k))"
    by (rule fold_own_entries) (simp add: map_of_merge_player)
  have sp: "map_of (spread_into existing []) k = opt_get existing k"
    by (simp add: map_of_spread_into split: option.splits)
  have oi: "map_of (or_empty incoming) k = opt_get incoming k"
    by (cases incoming) simp_all
  show ?thesis unfolding merge_playerProfiles_def main sp oi by (rule refl)
qed

lemma map_of_merge_playerProfiles_plain:
  assumes "k \<notin> set inherited"
  shows "map_of (merge_playerProfiles existing incoming) k =
     (case opt_get incoming k of
        None \<Rightarrow> opt_get existing k
      | Some ip \<Rightarrow>
          (case opt_get existing k of
             None \<Rightarrow> Some ip
           | Some ep \<Rightarrow> if js_gt (totalXP ip) (or0 (totalXP ep)) then Some ip else Some ep))"
proof -
  from assms proto_inherited have np: "k \<noteq> ''__proto__''" by auto
  show ?thesis
    by (cases existing)
      (simp_all add: map_of_merge_playerProfiles js_read_plain [OF assms] np
        split: option.splits)
qed

lemma map_of_merge_playerProfiles_own:
  assumes "opt_get existing k = Some ep"
  shows "map_of (merge_playerProfiles existing incoming) k =
     (case opt_get incoming k of
        None \<Rightarrow> Some ep
      | Some ip \<Rightarrow> if js_gt (totalXP ip) (or0 (totalXP ep)) then Some ip else Some ep)"
proof -
  from assms obtain ob where ob: "existing = Some ob" "map_of ob k = Some ep"
    by (cases existing) simp_all
  show ?thesis
    by (simp add: map_of_merge_playerProfiles ob js_read_own [OF ob(2)] split: option.splits)
qed

lemma map_of_merge_attempt:
  "map_of (merge_attempt (k, w) acc) k' =
     (if k' = k
      then (case map_of acc k of
              None \<Rightarrow> if k \<in> set inherited then None else Some w
            | Some v \<Rightarrow> if truthy_json v then Some v else Some w)
      else map_of acc k')"
  using proto_inherited
  by (auto simp: merge_attempt_def js_read_def map_of_js_assign split: option.splits)

lemma map_of_merge_practiceHistory:
  "map_of (merge_practiceHistory existing incoming) k =
     (case opt_get incoming k of
        None \<Rightarrow> opt_get existing k
      | Some w \<Rightarrow>
          (case opt_get existing k of
             None \<Rightarrow> if k \<in> set inherited then None else Some w
           | Some v \<Rightarrow> if truthy_json v then Some v else Some w))"
proof -
  let ?g = "\<lambda>k w old. (case old of
              None \<Rightarrow> if k \<in> set inherited then None else Some w
            | Some v \<Rightarrow> if truthy_json v then Some v else Some w)"
  have main: "map_of (fold merge_attempt (own_entries (or_empty incoming))
          (spread_into existing [])) k =
     (case map_of (or_empty incoming) k of None \<Rightarrow> map_of (spread_into existing []) k
      | Some v \<Rightarrow> ?g k v (map_of (spread_into existing []) k))"
    by (rule fold_own_entries) (simp add: map_of_merge_attempt)
  have sp: "map_of (spread_into existing []) k = opt_get existing k"
    by (simp add: map_of_spread_into split: option.splits)
  have oi: "map_of (or_empty incoming) k = opt_get incoming k"
    by (cases incoming) simp_all
  show ?thesis unfolding merge_practiceHistory_def main sp oi by (rule refl)
qed



lemma plain_outer_player:
  assumes "plain_outer_keys incoming" and "opt_get (revisionProgress incoming) p = Some s"
  shows "p \<notin> set inherited"
proof -
  from assms(2) obtain ob where ob: "revisionProgress incoming = Some ob" "map_of ob p = Some s"
    by (cases "revisionProgress incoming") simp_all
  from ob(2) have "p \<in> fst ` set ob" by (metis map_of_eq_None_iff option.distinct(1))
  with assms(1) ob(1) show ?thesis
    by (auto simp: plain_outer_keys_def list_all_iff)
qed

lemma map_of_add_score:
  "map_of (add_score (p, x) day) p' =
     (if p' = p
      then (case map_of day p of
              Some old \<Rightarrow> Some (js_add (score_or0 old) x)
            | None \<Rightarrow> if p \<in> set inherited
                      then (if p = ''__proto__'' then None else Some Text)
                      else Some (js_add (Num 0) x))
      else map_of day p')"
  using proto_inherited
  by (auto simp: add_score_def js_read_def map_of_js_assign split: option.splits)

lemma map_of_fold_add_score:
  "map_of (fold add_score (own_entries scores) day) p =
     (case map_of scores p of
        None \<Rightarrow> map_of day p
      | Some x \<Rightarrow>
          (case map_of day p of
             Some old \<Rightarrow> Some (js_add (score_or0 old) x)
           | None \<Rightarrow> if p \<in> set inherited
                     then (if p = ''__proto__'' then None else Some Text)
                     else Some (js_add (Num 0) x)))"
  by (rule fold_own_entries) (simp add: map_of_add_score)

lemma map_of_merge_date:
  "map_of (merge_date (d, scores) acc) d' =
     (if d' = d
      then (case map_of acc d of
              Some day \<Rightarrow> Some (fold add_score (own_entries scores) day)
            | None \<Rightarrow> if d \<in> set inherited then None
                      else Some (fold add_score (own_entries scores) []))
      else map_of acc d')"
  using proto_inherited
  by (auto simp: merge_date_def js_read_def map_of_js_assign split: option.splits)

lemma map_of_merge_dailyRevisionScores:
  "map_of (merge_dailyRevisionScores existing incoming) d =
     (case opt_get incoming d of
        None \<Rightarrow> opt_get existing d
      | Some scores \<Rightarrow>
          (case opt_get existing d of
             Some day \<Rightarrow> Some (fold add_score (own_entries scores) day)
           | None \<Rightarrow> if d \<in> set inherited then None
                     else Some (fold add_score (own_entries scores) [])))"
proof -
  let ?g = "\<lambda>d scores old. (case old of
              Some day \<Rightarrow> Some (fold add_score (own_entries scores) day)
            | None \<Rightarrow> if d \<in> set inherited then None
                      else Some (fold add_score (own_entries scores) []))"
  have main: "map_of (fold merge_date (own_entries (or_empty incoming))
          (spread_into existing [])) d =
     (case map_of (or_empty incoming) d of None \<Rightarrow> map_of (spread_into existing []) d
      | Some v \<Rightarrow> ?g d v (map_of (spread_into existing []) d))"
    by (rule fold_own_entries) (simp add: map_of_merge_date)
  have sp: "map_of (spread_into existing []) d = opt_get existing d"
    by (simp add: map_of_spread_into split: option.splits)
  have oi: "map_of (or_empty incoming) d = opt_get incoming d"
    by (cases incoming) simp_all
  show ?thesis unfolding merge_dailyRevisionScores_def main sp oi by (rule refl)
qed

lemma lookup2_merge_dailyRevisionScores:
  assumes "d \<notin> set inherited" and "p \<notin> set inherited"
  shows "lookup2 (Some (merge_dailyRevisionScores existing incoming)) d p =
     (case lookup2 incoming d p of
        None \<Rightarrow> lookup2 existing d p
      | Some x \<Rightarrow>
          Some (js_add (case lookup2 existing d p of None \<Rightarrow> Num 0 | Some old \<Rightarrow> score_or0 old) x))"
  using assms
  by (auto simp: map_of_merge_dailyRevisionScores map_of_fold_add_score split: option.splits)


lemma map_of_fold_js_assign:
  "map_of (fold (\<lambda>(key, v). js_assign key v) (own_entries items) mine) k =
     (case map_of items k of
        None \<Rightarrow> map_of mine k
      | Some v \<Rightarrow> if k = ''__proto__'' \<and> map_of mine k = None then None else Some v)"
  by (rule fold_own_entries) (auto simp: map_of_js_assign)

lemma map_of_merge_progress:
  "map_of (merge_progress (p, items) acc) p' =
     (if p' = p
      then (case map_of acc p of
              Some mine \<Rightarrow>
                Some (fold (\<lambda>(key, v). js_assign key v) (own_entries items) mine)
            | None \<Rightarrow> if p \<in> set inherited then None
                      else Some (fold (\<lambda>(key, v). js_assign key v) (own_entries items) []))
      else map_of acc p')"
  using proto_inherited
  by (auto simp: merge_progress_def js_read_def map_of_js_assign split: option.splits)

lemma map_of_merge_revisionProgress:
  "map_of (merge_revisionProgress existing incoming) p =
     (case opt_get incoming p of
        None \<Rightarrow> opt_get existing p
      | Some items \<Rightarrow>
          (case opt_get existing p of
             Some mine \<Rightarrow>
               Some (fold (\<lambda>(key, v). js_assign key v) (own_entries items) mine)
           | None \<Rightarrow> if p \<in> set inherited then None
                     else Some (fold (\<lambda>(key, v). js_assign key v) (own_entries items) [])))"
proof -
  let ?g = "\<lambda>p items old. (case old of
              Some mine \<Rightarrow>
                Some (fold (\<lambda>(key, v). js_assign key v) (own_entries items) mine)
            | None \<Rightarrow> if p \<in> set inherited then None
                      else Some (fold (\<lambda>(key, v). js_assign key v) (own_entries items) []))"
  have main: "map_of (fold merge_progress (own_entries (or_empty incoming))
          (spread_into existing [])) p =
     (case map_of (or_empty incoming) p of None \<Rightarrow> map_of (spread_into existing []) p
      | Some v \<Rightarrow> ?g p v (map_of (spread_into existing []) p))"
    by (rule fold_own_entries) (simp add: map_of_merge_progress)
  have sp: "map_of (spread_into existing []) p = opt_get existing p"
    by (simp add: map_of_spread_into split: option.splits)
  have oi: "map_of (or_empty incoming) p = opt_get incoming p"
    by (cases incoming) simp_all
  show ?thesis unfolding merge_revisionProgress_def main sp oi by (rule refl)
qed

lemma lookup2_merge_revisionProgress:
  assumes "p \<notin> set inherited \<or> opt_get incoming p = None" and "k \<noteq> ''__proto__''"
  shows "lookup2 (Some (merge_revisionProgress existing incoming)) p k =
     (case lookup2 incoming p k of
        None \<Rightarrow> lookup2 existing p k
      | Some v \<Rightarrow> Some v)"
  using assms
  by (auto simp: map_of_merge_revisionProgress map_of_fold_js_assign split: option.splits)

section \<open>Sums of doubles\<close>

lemma double_ulp_small: "m < 2 ^ 53 \<Longrightarrow> double_ulp m = 1"
  by (subst double_ulp.simps) simp

lemma round_double_small:
  assumes "\<bar>n\<bar> < 2 ^ 53"
  shows "round_double n = n"
proof -
  from assms have "nat \<bar>n\<bar> < 2 ^ 53" by (simp add: nat_less_iff)
  then have "double_ulp (nat \<bar>n\<bar>) = 1" by (rule double_ulp_small)
  then show ?thesis by (simp add: round_double_def Let_def mult_sgn_abs)
qed

lemma round_double_safe:
  assumes "\<bar>n\<bar> \<le> 2 ^ 53"
  shows "round_double n = n"
proof (cases "\<bar>n\<bar> < 2 ^ 53")
  case True
  then show ?thesis by (rule round_double_small)
next
  case False
  with assms have n: "\<bar>n\<bar> = 2 ^ 53" by simp
  have u: "double_ulp 9007199254740992 = 2"
    by (subst double_ulp.simps) (simp add: double_ulp_small)
  from n have "n = 9007199254740992 \<or> n = - 9007199254740992" by (auto simp: abs_if split: if_splits)
  then show ?thesis
    by (auto simp: round_double_def Let_def u)
qed

lemma sum_to_double_safe:
  assumes "\<bar>n\<bar> \<le> 2 ^ 53"
  shows "sum_to_double n = Num n"
proof -
  have "(2::int) ^ 53 < 2 ^ 1024" by simp
  with assms have "\<not> 2 ^ 1024 \<le> \<bar>n\<bar>" by linarith
  then show ?thesis
    by (simp add: sum_to_double_def Let_def round_double_safe [OF assms])
qed

lemma js_add_rounds: "js_add (Num 9007199254740992) (Num 1) = Num 9007199254740992"
proof -
  have "double_ulp 9007199254740993 = 2"
    by (subst double_ulp.simps) (simp add: double_ulp_small)
  then have "round_double 9007199254740993 = 9007199254740992"
    by (simp add: round_double_def Let_def)
  then show ?thesis by (simp add: sum_to_double_def Let_def)
qed

section \<open>The report list\<close>

lemma push_report_old:
  "reportId r \<in> reportId ` set acc \<Longrightarrow> push_report r acc = acc"
  by (auto simp: push_report_def list_ex_iff)

lemma push_report_new:
  "reportId r \<notin> reportId ` set acc \<Longrightarrow> push_report r acc = acc @ [r]"
  by (force simp: push_report_def list_ex_iff image_iff)

lemma fold_push_report:
  "\<exists>new. fold push_report rs acc = acc @ new \<and> subseq new rs \<and>
     distinct (map reportId new) \<and>
     reportId ` set new = reportId ` set rs - reportId ` set acc \<and>
     (\<forall>r\<in>set new. find (\<lambda>x. reportId x = reportId r) rs = Some r)"
proof (induction rs arbitrary: acc)
  case Nil
  show ?case by simp
next
  case (Cons r rs)
  show ?case
  proof (cases "reportId r \<in> reportId ` set acc")
    case True
    from Cons.IH [of acc] obtain new where new:
      "fold push_report rs acc = acc @ new" "subseq new rs" "distinct (map reportId new)"
      "reportId ` set new = reportId ` set rs - reportId ` set acc"
      "\<forall>x\<in>set new. find (\<lambda>y. reportId y = reportId x) rs = Some x"
      by blast
    have neq: "reportId r \<noteq> reportId x" if "x \<in> set new" for x
      using that new(4) True by blast
    have "fold push_report (r # rs) acc = acc @ new"
      using True new(1) by (simp add: push_report_old)
    moreover have "subseq new (r # rs)" using new(2) by (rule list_emb_Cons)
    moreover have "reportId ` set new = reportId ` set (r # rs) - reportId ` set acc"
      using new(4) True by auto
    moreover have "\<forall>x\<in>set new. find (\<lambda>y. reportId y = reportId x) (r # rs) = Some x"
      using new(5) neq by simp
    ultimately show ?thesis using new(3) by blast
  next
    case False
    from Cons.IH [of "acc @ [r]"] obtain new where new:
      "fold push_report rs (acc @ [r]) = (acc @ [r]) @ new" "subseq new rs"
      "distinct (map reportId new)"
      "reportId ` set new = reportId ` set rs - reportId ` set (acc @ [r])"
      "\<forall>x\<in>set new. find (\<lambda>y. reportId y = reportId x) rs = Some x"
      by blast
    have neq: "reportId r \<noteq> reportId x" if "x \<in> set new" for x
      using that new(4) by auto
    have "fold push_report (r # rs) acc = acc @ (r # new)"
      using False new(1) by (simp add: push_report_new)
    moreover have "subseq (r # new) (r # rs)" using new(2) by simp
    moreover have "distinct (map reportId (r # new))"
      using new(3) neq by auto
    moreover have "reportId ` set (r # new) = reportId ` set (r # rs) - reportId ` set acc"
      using new(4) False by auto
    moreover have "\<forall>x\<in>set (r # new). find (\<lambda>y. reportId y = reportId x) (r # rs) = Some x"
      using new(5) neq by simp
    ultimately show ?thesis by blast
  qed
qed




lemma fold_push_report_distinct:
  assumes "distinct (map reportId (acc @ xs))"
  shows "fold push_report xs acc = acc @ xs"
  using assms
proof (induction xs arbitrary: acc)
  case Nil
  show ?case by simp
next
  case (Cons x xs)
  from Cons.prems have "reportId x \<notin> reportId ` set acc" by auto
  then have "push_report x acc = acc @ [x]" by (rule push_report_new)
  moreover from Cons.prems have "distinct (map reportId ((acc @ [x]) @ xs))" by simp
  ultimately show ?case using Cons.IH [of "acc @ [x]"] by simp
qed

lemma reports_merge:
  "reports (merge now stored incoming) = fold push_report (reports incoming) (reports stored)"
  by (simp add: reports_def merge_def merge_reportedQuestions_def)

section \<open>Comparing experience points\<close>

lemma js_gt_iff: "js_gt a b \<longleftrightarrow> (\<exists>x. a = Some x \<and> b < x)"
  by (cases a) simp_all

section \<open>Claims about the merge\<close>

text \<open>
  C1, as amended. The source merges \<^verbatim>\<open>revisionProgress\<close> under the comment ``incoming
  data wins for conflicts''. Let no player of the incoming \<^verbatim>\<open>revisionProgress\<close> and no
  date of the incoming \<^verbatim>\<open>dailyRevisionScores\<close> be a name inherited from
  \<^verbatim>\<open>Object.prototype\<close>, and let the item key not be \<^verbatim>\<open>__proto__\<close>. Then every (player,
  item) pair that the incoming document holds has the incoming value in the merged
  document, also when the stored document already held that pair; a pair that the
  incoming document does not hold keeps what the stored document has there (a value, or
  nothing).
\<close>

theorem revisionProgress_incoming_wins:
  assumes "plain_outer_keys incoming" and "k \<noteq> ''__proto__''"
  shows "(lookup2 (revisionProgress incoming) p k = Some v \<longrightarrow>
      lookup2 (revisionProgress (merge now stored incoming)) p k = Some v)
   \<and> (lookup2 (revisionProgress incoming) p k = None \<longrightarrow>
      lookup2 (revisionProgress (merge now stored incoming)) p k =
      lookup2 (revisionProgress stored) p k)"
proof -
  have "p \<notin> set inherited \<or> opt_get (revisionProgress incoming) p = None"
    using plain_outer_player [OF assms(1), of p]
    by (cases "opt_get (revisionProgress incoming) p") simp_all
  from lookup2_merge_revisionProgress [OF this assms(2), of "revisionProgress stored"]
  have "lookup2 (revisionProgress (merge now stored incoming)) p k =
     (case lookup2 (revisionProgress incoming) p k of
        None \<Rightarrow> lookup2 (revisionProgress stored) p k
      | Some v \<Rightarrow> Some v)"
    by (simp add: merge_def)
  then show ?thesis by simp
qed

text \<open>
  The amended C1 at stored \<^verbatim>\<open>{alice: {q1: old, q2: kept}}\<close> and incoming
  \<^verbatim>\<open>{alice: {q1: new}}\<close>.
\<close>

theorem revisionProgress_incoming_wins_witness:
  "plain_outer_keys (only_revisionProgress [(''alice'', [(''q1'', ''new'')])])
   \<and> ''q1'' \<noteq> ''__proto__'' \<and> ''q2'' \<noteq> ''__proto__''
   \<and> lookup2 (revisionProgress (only_revisionProgress [(''alice'', [(''q1'', ''new'')])]))
       ''alice'' ''q1'' = Some ''new''
   \<and> lookup2 (revisionProgress (only_revisionProgress [(''alice'', [(''q1'', ''new'')])]))
       ''alice'' ''q2'' = None
   \<and> lookup2 (revisionProgress (merge ''t''
        (only_revisionProgress [(''alice'', [(''q1'', ''old''), (''q2'', ''kept'')])])
        (only_revisionProgress [(''alice'', [(''q1'', ''new'')])])))
        ''alice'' ''q1'' = Some ''new''
   \<and> lookup2 (revisionProgress (merge ''t''
        (only_revisionProgress [(''alice'', [(''q1'', ''old''), (''q2'', ''kept'')])])
        (only_revisionProgress [(''alice'', [(''q1'', ''new'')])])))
        ''alice'' ''q2'' = Some ''kept''"
proof -
  let ?S = "only_revisionProgress [(''alice'', [(''q1'', ''old''), (''q2'', ''kept'')])]"
  let ?I = "only_revisionProgress [(''alice'', [(''q1'', ''new'')])]"
  have pk: "plain_outer_keys ?I"
    by (simp add: plain_outer_keys_def only_revisionProgress_def empty_doc_def inherited_def)
  have n1: "''q1'' \<noteq> ''__proto__''" and n2: "''q2'' \<noteq> ''__proto__''" by simp_all
  have a: "lookup2 (revisionProgress ?I) ''alice'' ''q1'' = Some ''new''"
    and b: "lookup2 (revisionProgress ?I) ''alice'' ''q2'' = None"
    and c: "lookup2 (revisionProgress ?S) ''alice'' ''q2'' = Some ''kept''"
    by (simp_all add: only_revisionProgress_def empty_doc_def)
  from revisionProgress_incoming_wins [OF pk n1, of "''alice''" "''new''" "''t''" ?S] a
  have d: "lookup2 (revisionProgress (merge ''t'' ?S ?I)) ''alice'' ''q1'' = Some ''new''"
    by blast
  from revisionProgress_incoming_wins [OF pk n2, of "''alice''" "''new''" "''t''" ?S] b c
  have e: "lookup2 (revisionProgress (merge ''t'' ?S ?I)) ''alice'' ''q2'' = Some ''kept''"
    by simp
  from pk n1 n2 a b d e show ?thesis by blast
qed

text \<open>
  C1 as stated fails: the stored document holds the pair (alice, q1) with the value
  \<open>old\<close>, the incoming document holds it with \<open>new\<close>, and the merged document holds
  \<open>new\<close>. It also fails for the player \<open>constructor\<close>, absent from the stored
  document: the test \<^verbatim>\<open>!mergedData.revisionProgress[player]\<close> finds the inherited
  function, the items are assigned to that function, and the merged document holds no
  such pair.
\<close>

theorem revisionProgress_stored_pair_overwritten:
  "lookup2 (revisionProgress (only_revisionProgress [(''alice'', [(''q1'', ''old'')])]))
       ''alice'' ''q1'' = Some ''old''
   \<and> lookup2 (revisionProgress (merge ''t''
        (only_revisionProgress [(''alice'', [(''q1'', ''old'')])])
        (only_revisionProgress [(''alice'', [(''q1'', ''new'')])])))
        ''alice'' ''q1'' = Some ''new''
   \<and> ''new'' \<noteq> ''old''
   \<and> lookup2 (revisionProgress (only_revisionProgress [(''constructor'', [(''q1'', ''new'')])]))
       ''constructor'' ''q1'' = Some ''new''
   \<and> lookup2 (revisionProgress (merge ''t'' (or_empty_doc None)
        (only_revisionProgress [(''constructor'', [(''q1'', ''new'')])])))
        ''constructor'' ''q1'' = None"
  by (simp add: merge_def merge_revisionProgress_def merge_progress_def spread_into_def
      js_read_def js_assign_def inherited_def only_revisionProgress_def empty_doc_def)







text \<open>
  C4, as amended. For a player of the incoming \<^verbatim>\<open>playerProfiles\<close> whose id is not a
  name inherited from \<^verbatim>\<open>Object.prototype\<close>, the merged profile is the incoming one
  exactly when the stored document has no profile for the player or the incoming
  profile has a \<^verbatim>\<open>totalXP\<close> that is strictly greater than the stored one, a missing
  stored \<^verbatim>\<open>totalXP\<close> counting as 0; an incoming profile without \<^verbatim>\<open>totalXP\<close> never
  replaces a stored profile. Otherwise the stored profile is kept, and a player that
  the incoming document does not have keeps the stored profile. Hence the \<^verbatim>\<open>totalXP\<close>
  of a stored player (missing counting as 0) never decreases.
\<close>

theorem playerProfiles_highest_xp_wins:
  "(opt_get (playerProfiles incoming) p = Some ip \<and> p \<notin> set inherited \<longrightarrow>
      opt_get (playerProfiles (merge now stored incoming)) p =
      (if opt_get (playerProfiles stored) p = None
          \<or> (\<exists>sp x. opt_get (playerProfiles stored) p = Some sp \<and> totalXP ip = Some x
                \<and> or0 (totalXP sp) < x)
       then Some ip else opt_get (playerProfiles stored) p))
   \<and> (opt_get (playerProfiles incoming) p = None \<longrightarrow>
      opt_get (playerProfiles (merge now stored incoming)) p =
      opt_get (playerProfiles stored) p)
   \<and> (opt_get (playerProfiles stored) p = Some sp \<longrightarrow>
      (\<exists>mp. opt_get (playerProfiles (merge now stored incoming)) p = Some mp
         \<and> or0 (totalXP sp) \<le> or0 (totalXP mp)))"
proof -
  let ?m = "opt_get (playerProfiles (merge now stored incoming)) p"
  have a: "?m = (if opt_get (playerProfiles stored) p = None
          \<or> (\<exists>sp x. opt_get (playerProfiles stored) p = Some sp \<and> totalXP ip = Some x
                \<and> or0 (totalXP sp) < x)
       then Some ip else opt_get (playerProfiles stored) p)"
    if ip: "opt_get (playerProfiles incoming) p = Some ip" and plain: "p \<notin> set inherited"
  proof -
    have m: "?m = (case opt_get (playerProfiles stored) p of
             None \<Rightarrow> Some ip
           | Some ep \<Rightarrow> if js_gt (totalXP ip) (or0 (totalXP ep)) then Some ip else Some ep)"
      using map_of_merge_playerProfiles_plain
        [OF plain, of "playerProfiles stored" "playerProfiles incoming"] ip
      by (simp add: merge_def)
    show ?thesis
    proof (cases "opt_get (playerProfiles stored) p")
      case None
      then show ?thesis by (simp add: m)
    next
      case (Some ep)
      then show ?thesis by (auto simp: m js_gt_iff)
    qed
  qed
  have b: "?m = opt_get (playerProfiles stored) p"
    if "opt_get (playerProfiles incoming) p = None"
    using map_of_merge_playerProfiles [of "playerProfiles stored" "playerProfiles incoming" p]
      that
    by (simp add: merge_def)
  have c: "\<exists>mp. ?m = Some mp \<and> or0 (totalXP sp) \<le> or0 (totalXP mp)"
    if sp: "opt_get (playerProfiles stored) p = Some sp"
  proof -
    have m: "?m = (case opt_get (playerProfiles incoming) p of
        None \<Rightarrow> Some sp
      | Some ip \<Rightarrow> if js_gt (totalXP ip) (or0 (totalXP sp)) then Some ip else Some sp)"
      using map_of_merge_playerProfiles_own [OF sp, of "playerProfiles incoming"]
      by (simp add: merge_def)
    show ?thesis
    proof (cases "opt_get (playerProfiles incoming) p")
      case None
      then show ?thesis by (simp add: m)
    next
      case (Some ip)
      show ?thesis
      proof (cases "js_gt (totalXP ip) (or0 (totalXP sp))")
        case True
        then obtain x where x: "totalXP ip = Some x" "or0 (totalXP sp) < x"
          by (auto simp: js_gt_iff)
        have "?m = Some ip" using Some True by (simp add: m)
        moreover have "or0 (totalXP sp) \<le> or0 (totalXP ip)" using x by simp
        ultimately show ?thesis by blast
      next
        case False
        with Some show ?thesis by (simp add: m)
      qed
    qed
  qed
  from a b c show ?thesis by blast
qed

text \<open>
  The amended C4 at the scenario of the specification, with a third stored player:
  stored \<^verbatim>\<open>{alice: 100, carol: 10}\<close> and incoming \<^verbatim>\<open>{alice: 80, bob: 50}\<close> give
  alice 100 (stored), bob 50 (incoming) and carol 10 (stored).
\<close>

theorem playerProfiles_highest_xp_wins_witness:
  "''alice'' \<notin> set inherited \<and> ''bob'' \<notin> set inherited
   \<and> opt_get (playerProfiles (only_playerProfiles
        [(''alice'', \<lparr>totalXP = Some 80, profile_rest = ''i''\<rparr>),
         (''bob'', \<lparr>totalXP = Some 50, profile_rest = ''i''\<rparr>)])) ''alice''
      = Some \<lparr>totalXP = Some 80, profile_rest = ''i''\<rparr>
   \<and> opt_get (playerProfiles (only_playerProfiles
        [(''alice'', \<lparr>totalXP = Some 80, profile_rest = ''i''\<rparr>),
         (''bob'', \<lparr>totalXP = Some 50, profile_rest = ''i''\<rparr>)])) ''carol'' = None
   \<and> opt_get (playerProfiles (only_playerProfiles
        [(''alice'', \<lparr>totalXP = Some 100, profile_rest = ''s''\<rparr>),
         (''carol'', \<lparr>totalXP = Some 10, profile_rest = ''s''\<rparr>)])) ''alice''
      = Some \<lparr>totalXP = Some 100, profile_rest = ''s''\<rparr>
   \<and> opt_get (playerProfiles (merge ''t''
        (only_playerProfiles
          [(''alice'', \<lparr>totalXP = Some 100, profile_rest = ''s''\<rparr>),
           (''carol'', \<lparr>totalXP = Some 10, profile_rest = ''s''\<rparr>)])
        (only_playerProfiles
          [(''alice'', \<lparr>totalXP = Some 80, profile_rest = ''i''\<rparr>),
           (''bob'', \<lparr>totalXP = Some 50, profile_rest = ''i''\<rparr>)]))) ''alice''
      = Some \<lparr>totalXP = Some 100, profile_rest = ''s''\<rparr>
   \<and> opt_get (playerProfiles (merge ''t''
        (only_playerProfiles
          [(''alice'', \<lparr>totalXP = Some 100, profile_rest = ''s''\<rparr>),
           (''carol'', \<lparr>totalXP = Some 10, profile_rest = ''s''\<rparr>)])
        (only_playerProfiles
          [(''alice'', \<lparr>totalXP = Some 80, profile_rest = ''i''\<rparr>),
           (''bob'', \<lparr>totalXP = Some 50, profile_rest = ''i''\<rparr>)]))) ''bob''
      = Some \<lparr>totalXP = Some 50, profile_rest = ''i''\<rparr>
   \<and> opt_get (playerProfiles (merge ''t''
        (only_playerProfiles
          [(''alice'', \<lparr>totalXP = Some 100, profile_rest = ''s''\<rparr>),
           (''carol'', \<lparr>totalXP = Some 10, profile_rest = ''s''\<rparr>)])
        (only_playerProfiles
          [(''alice'', \<lparr>totalXP = Some 80, profile_rest = ''i''\<rparr>),
           (''bob'', \<lparr>totalXP = Some 50, profile_rest = ''i''\<rparr>)]))) ''carol''
      = Some \<lparr>totalXP = Some 10, profile_rest = ''s''\<rparr>"
proof -
  let ?S = "only_playerProfiles
          [(''alice'', \<lparr>totalXP = Some 100, profile_rest = ''s''\<rparr>),
           (''carol'', \<lparr>totalXP = Some 10, profile_rest = ''s''\<rparr>)]"
  let ?I = "only_playerProfiles
          [(''alice'', \<lparr>totalXP = Some 80, profile_rest = ''i''\<rparr>),
           (''bob'', \<lparr>totalXP = Some 50, profile_rest = ''i''\<rparr>)]"
  have s: "playerProfiles ?S = Some
          [(''alice'', \<lparr>totalXP = Some 100, profile_rest = ''s''\<rparr>),
           (''carol'', \<lparr>totalXP = Some 10, profile_rest = ''s''\<rparr>)]"
    by (simp add: only_playerProfiles_def empty_doc_def)
  have i: "playerProfiles ?I = Some
          [(''alice'', \<lparr>totalXP = Some 80, profile_rest = ''i''\<rparr>),
           (''bob'', \<lparr>totalXP = Some 50, profile_rest = ''i''\<rparr>)]"
    by (simp add: only_playerProfiles_def empty_doc_def)
  have inh: "''alice'' \<notin> set inherited" "''bob'' \<notin> set inherited"
    by (simp_all add: inherited_def)
  show ?thesis
    using inh playerProfiles_highest_xp_wins
        [where stored = ?S and incoming = ?I and p = "''alice''" and now = "''t''"
           and ip = "\<lparr>totalXP = Some 80, profile_rest = ''i''\<rparr>"
           and sp = "\<lparr>totalXP = Some 100, profile_rest = ''s''\<rparr>"]
      playerProfiles_highest_xp_wins
        [where stored = ?S and incoming = ?I and p = "''bob''" and now = "''t''"
           and ip = "\<lparr>totalXP = Some 50, profile_rest = ''i''\<rparr>"
           and sp = "\<lparr>totalXP = Some 100, profile_rest = ''s''\<rparr>"]
      playerProfiles_highest_xp_wins
        [where stored = ?S and incoming = ?I and p = "''carol''" and now = "''t''"
           and ip = "\<lparr>totalXP = Some 50, profile_rest = ''i''\<rparr>"
           and sp = "\<lparr>totalXP = Some 10, profile_rest = ''s''\<rparr>"]
    unfolding s i by simp
qed

text \<open>
  C4 as stated fails where the incoming profile has no \<^verbatim>\<open>totalXP\<close> and the stored one
  is negative: with the missing value read as 0 the incoming profile would have the
  greater \<^verbatim>\<open>totalXP\<close>, yet the stored profile is kept (\<^verbatim>\<open>undefined > -5\<close> is false).
  It also fails for the player \<open>toString\<close>, absent from the stored \<^verbatim>\<open>playerProfiles\<close>
  \<^verbatim>\<open>{}\<close>: the read \<^verbatim>\<open>existingData.playerProfiles?.[player]\<close> finds the inherited
  function, which counts as a stored player with \<^verbatim>\<open>totalXP\<close> 0, and the incoming profile
  with \<^verbatim>\<open>totalXP\<close> 0 is not inserted.
\<close>

theorem playerProfiles_missing_xp_keeps_stored:
  "opt_get (playerProfiles (only_playerProfiles
       [(''alice'', \<lparr>totalXP = Some (- 5), profile_rest = ''stored''\<rparr>)])) ''alice''
     = Some \<lparr>totalXP = Some (- 5), profile_rest = ''stored''\<rparr>
   \<and> opt_get (playerProfiles (only_playerProfiles
       [(''alice'', \<lparr>totalXP = None, profile_rest = ''incoming''\<rparr>)])) ''alice''
     = Some \<lparr>totalXP = None, profile_rest = ''incoming''\<rparr>
   \<and> or0 (Some (- 5)) < or0 None
   \<and> opt_get (playerProfiles (merge ''t''
        (only_playerProfiles [(''alice'', \<lparr>totalXP = Some (- 5), profile_rest = ''stored''\<rparr>)])
        (only_playerProfiles [(''alice'', \<lparr>totalXP = None, profile_rest = ''incoming''\<rparr>)])))
        ''alice''
     = Some \<lparr>totalXP = Some (- 5), profile_rest = ''stored''\<rparr>
   \<and> opt_get (playerProfiles (only_playerProfiles [] :: string doc)) ''toString'' = None
   \<and> opt_get (playerProfiles (only_playerProfiles
       [(''toString'', \<lparr>totalXP = Some 0, profile_rest = ''incoming''\<rparr>)])) ''toString''
     = Some \<lparr>totalXP = Some 0, profile_rest = ''incoming''\<rparr>
   \<and> opt_get (playerProfiles (merge ''t''
        (only_playerProfiles [])
        (only_playerProfiles [(''toString'', \<lparr>totalXP = Some 0, profile_rest = ''incoming''\<rparr>)])))
        ''toString'' = None"
  by (simp add: merge_def merge_playerProfiles_def merge_player_def spread_into_def
      js_read_def js_assign_def inherited_def only_playerProfiles_def empty_doc_def)

text \<open>
  C5. When no two stored reports share a \<^verbatim>\<open>reportId\<close>, no two merged reports do. The
  merged sequence starts with the stored reports in their order; what follows is a
  subsequence of the incoming reports, in their order. It carries every \<^verbatim>\<open>reportId\<close> of
  either document; a report whose \<^verbatim>\<open>reportId\<close> the stored document has is the stored
  copy, and an appended report is the first incoming report with its \<^verbatim>\<open>reportId\<close>.
\<close>

theorem reportedQuestions_dedup:
  assumes "distinct (map reportId (reports stored))"
  shows "distinct (map reportId (reports (merge now stored incoming)))
    \<and> take (length (reports stored)) (reports (merge now stored incoming)) = reports stored
    \<and> subseq (drop (length (reports stored)) (reports (merge now stored incoming)))
         (reports incoming)
    \<and> reportId ` set (reports (merge now stored incoming)) =
         reportId ` set (reports stored) \<union> reportId ` set (reports incoming)
    \<and> (\<forall>r\<in>set (reports (merge now stored incoming)).
          reportId r \<in> reportId ` set (reports stored) \<longrightarrow> r \<in> set (reports stored))
    \<and> (\<forall>r\<in>set (drop (length (reports stored)) (reports (merge now stored incoming))).
          find (\<lambda>x. reportId x = reportId r) (reports incoming) = Some r)"
proof -
  define old where "old = reports stored"
  define inc where "inc = reports incoming"
  obtain new where new: "fold push_report inc old = old @ new" "subseq new inc"
    "distinct (map reportId new)"
    "reportId ` set new = reportId ` set inc - reportId ` set old"
    "\<forall>r\<in>set new. find (\<lambda>x. reportId x = reportId r) inc = Some r"
    using fold_push_report [of inc old] by blast
  have m: "reports (merge now stored incoming) = old @ new"
    unfolding reports_merge old_def [symmetric] inc_def [symmetric] by (rule new(1))
  have d: "distinct (map reportId old)" using assms by (simp add: old_def)
  have disj: "reportId ` set old \<inter> reportId ` set new = {}" using new(4) by blast
  have 1: "distinct (map reportId (old @ new))"
    using d new(3) disj by simp
  have 2: "take (length old) (old @ new) = old" by simp
  have 3: "subseq (drop (length old) (old @ new)) inc" using new(2) by simp
  have 4: "reportId ` set (old @ new) = reportId ` set old \<union> reportId ` set inc"
    using new(4) by (auto simp: image_Un)
  have 5: "\<forall>r\<in>set (old @ new). reportId r \<in> reportId ` set old \<longrightarrow> r \<in> set old"
    using disj by auto
  have 6: "\<forall>r\<in>set (drop (length old) (old @ new)).
          find (\<lambda>x. reportId x = reportId r) inc = Some r"
    using new(5) by simp
  from 1 2 3 4 5 6 show ?thesis
    unfolding m unfolding old_def inc_def by blast
qed

text \<open>
  C5 at the scenario of the specification: stored \<^verbatim>\<open>[r1 old]\<close> and incoming
  \<^verbatim>\<open>[r1 new, r2 x]\<close> give \<^verbatim>\<open>[r1 old, r2 x]\<close>.
\<close>

theorem reportedQuestions_dedup_witness:
  "distinct (map reportId (reports (only_reportedQuestions
       [\<lparr>reportId = ''r1'', report_rest = ''old''\<rparr>])))
   \<and> reports (merge ''t''
        (only_reportedQuestions [\<lparr>reportId = ''r1'', report_rest = ''old''\<rparr>])
        (only_reportedQuestions [\<lparr>reportId = ''r1'', report_rest = ''new''\<rparr>,
           \<lparr>reportId = ''r2'', report_rest = ''x''\<rparr>]))
     = [\<lparr>reportId = ''r1'', report_rest = ''old''\<rparr>, \<lparr>reportId = ''r2'', report_rest = ''x''\<rparr>]
   \<and> distinct (map reportId (reports (merge ''t''
        (only_reportedQuestions [\<lparr>reportId = ''r1'', report_rest = ''old''\<rparr>])
        (only_reportedQuestions [\<lparr>reportId = ''r1'', report_rest = ''new''\<rparr>,
           \<lparr>reportId = ''r2'', report_rest = ''x''\<rparr>]))))"
proof -
  let ?S = "only_reportedQuestions [\<lparr>reportId = ''r1'', report_rest = ''old''\<rparr>]"
  let ?I = "only_reportedQuestions [\<lparr>reportId = ''r1'', report_rest = ''new''\<rparr>,
           \<lparr>reportId = ''r2'', report_rest = ''x''\<rparr>]"
  have d: "distinct (map reportId (reports ?S))"
    by (simp add: reports_def only_reportedQuestions_def)
  have m: "reports (merge ''t'' ?S ?I) =
      [\<lparr>reportId = ''r1'', report_rest = ''old''\<rparr>, \<lparr>reportId = ''r2'', report_rest = ''x''\<rparr>]"
    by (simp add: reports_def merge_def merge_reportedQuestions_def push_report_def
        only_reportedQuestions_def empty_doc_def)
  from reportedQuestions_dedup [OF d, of "''t''" ?I]
  have "distinct (map reportId (reports (merge ''t'' ?S ?I)))" by blast
  with d m show ?thesis by blast
qed




text \<open>
  C7, as amended. Let no date of the incoming \<^verbatim>\<open>dailyRevisionScores\<close> and no player of
  the incoming \<^verbatim>\<open>revisionProgress\<close> be a name inherited from \<^verbatim>\<open>Object.prototype\<close>, and
  let the keys looked at not be such names. Merged against an absent stored document,
  the incoming document gives a merged document whose \<^verbatim>\<open>questionSets\<close>,
  \<^verbatim>\<open>playerProfiles\<close>, \<^verbatim>\<open>practiceHistory\<close> and \<^verbatim>\<open>revisionProgress\<close> hold what the incoming
  fields hold (at both levels for the nested one), whose \<^verbatim>\<open>dailyRevisionScores\<close> has
  the dates of the incoming field and its numeric scores of magnitude up to \<open>2 ^ 53\<close>,
  and which has the empty mapping or sequence for a field that the incoming document
  omits. \<^verbatim>\<open>reportedQuestions\<close> is the incoming sequence when no two incoming reports
  share a \<^verbatim>\<open>reportId\<close>; in general it is the subsequence of the incoming reports that
  keeps the first report of every \<^verbatim>\<open>reportId\<close>.
\<close>

theorem merge_into_absent_stored:
  assumes "plain_outer_keys incoming" and "k \<notin> set inherited" and "j \<notin> set inherited"
  shows "opt_get (questionSets (merge now (or_empty_doc None) incoming)) k =
     opt_get (questionSets incoming) k
   \<and> opt_get (playerProfiles (merge now (or_empty_doc None) incoming)) k =
     opt_get (playerProfiles incoming) k
   \<and> (opt_get (dailyRevisionScores (merge now (or_empty_doc None) incoming)) k = None) =
     (opt_get (dailyRevisionScores incoming) k = None)
   \<and> (lookup2 (dailyRevisionScores incoming) k j = Some (Num x) \<and> \<bar>x\<bar> \<le> 2 ^ 53 \<longrightarrow>
        lookup2 (dailyRevisionScores (merge now (or_empty_doc None) incoming)) k j =
        Some (Num x))
   \<and> (lookup2 (dailyRevisionScores incoming) k j = None \<longrightarrow>
        lookup2 (dailyRevisionScores (merge now (or_empty_doc None) incoming)) k j = None)
   \<and> opt_get (practiceHistory (merge now (or_empty_doc None) incoming)) k =
     opt_get (practiceHistory incoming) k
   \<and> (opt_get (revisionProgress (merge now (or_empty_doc None) incoming)) k = None) =
     (opt_get (revisionProgress incoming) k = None)
   \<and> lookup2 (revisionProgress (merge now (or_empty_doc None) incoming)) k j =
     lookup2 (revisionProgress incoming) k j
   \<and> (distinct (map reportId (reports incoming)) \<longrightarrow>
        reports (merge now (or_empty_doc None) incoming) = reports incoming)
   \<and> subseq (reports (merge now (or_empty_doc None) incoming)) (reports incoming)
   \<and> distinct (map reportId (reports (merge now (or_empty_doc None) incoming)))
   \<and> (\<forall>r\<in>set (reports (merge now (or_empty_doc None) incoming)).
        find (\<lambda>x. reportId x = reportId r) (reports incoming) = Some r)
   \<and> reportId ` set (reports (merge now (or_empty_doc None) incoming)) =
        reportId ` set (reports incoming)
   \<and> (questionSets incoming = None \<longrightarrow>
        questionSets (merge now (or_empty_doc None) incoming) = Some [])
   \<and> (playerProfiles incoming = None \<longrightarrow>
        playerProfiles (merge now (or_empty_doc None) incoming) = Some [])
   \<and> (dailyRevisionScores incoming = None \<longrightarrow>
        dailyRevisionScores (merge now (or_empty_doc None) incoming) = Some [])
   \<and> (practiceHistory incoming = None \<longrightarrow>
        practiceHistory (merge now (or_empty_doc None) incoming) = Some [])
   \<and> (revisionProgress incoming = None \<longrightarrow>
        revisionProgress (merge now (or_empty_doc None) incoming) = Some [])
   \<and> (reportedQuestions incoming = None \<longrightarrow>
        reportedQuestions (merge now (or_empty_doc None) incoming) = Some [])"
proof -
  let ?E = "empty_doc :: 'a doc"
  let ?M = "merge now ?E incoming"
  note kk = assms(2) and jj = assms(3)
  from jj proto_inherited have jp: "j \<noteq> ''__proto__''" by auto
  have e: "questionSets (empty_doc :: 'a doc) = None"
    "playerProfiles (empty_doc :: 'a doc) = None"
    "dailyRevisionScores (empty_doc :: 'a doc) = None"
    "practiceHistory (empty_doc :: 'a doc) = None"
    "revisionProgress (empty_doc :: 'a doc) = None"
    "reports (empty_doc :: 'a doc) = []"
    by (simp_all add: empty_doc_def reports_def)
  have qs: "opt_get (questionSets ?M) k = opt_get (questionSets incoming) k"
    using map_of_merge_questionSets [of "questionSets ?E" "questionSets incoming" k]
    by (simp add: merge_def e split: option.splits)
  have pp: "opt_get (playerProfiles ?M) k = opt_get (playerProfiles incoming) k"
    using map_of_merge_playerProfiles_plain
      [OF kk, of "playerProfiles ?E" "playerProfiles incoming"]
    by (simp add: merge_def e split: option.splits)
  have ds0: "(opt_get (dailyRevisionScores ?M) k = None) =
      (opt_get (dailyRevisionScores incoming) k = None)"
    using map_of_merge_dailyRevisionScores
      [of "dailyRevisionScores ?E" "dailyRevisionScores incoming" k] kk
    by (simp add: merge_def e split: option.splits)
  have dsl: "lookup2 (dailyRevisionScores ?M) k j =
     (case lookup2 (dailyRevisionScores incoming) k j of
        None \<Rightarrow> None
      | Some s \<Rightarrow> Some (js_add (Num 0) s))"
  proof -
    have le: "lookup2 (dailyRevisionScores ?E) k j = None" by (simp add: e)
    have dm: "dailyRevisionScores ?M =
        Some (merge_dailyRevisionScores (dailyRevisionScores ?E) (dailyRevisionScores incoming))"
      by (simp add: merge_def)
    show ?thesis
      unfolding dm
      using lookup2_merge_dailyRevisionScores
        [OF kk jj, of "dailyRevisionScores ?E" "dailyRevisionScores incoming"]
      by (simp add: le del: lookup2.simps split: option.splits)
  qed
  have ds: "lookup2 (dailyRevisionScores incoming) k j = Some (Num x) \<and> \<bar>x\<bar> \<le> 2 ^ 53 \<longrightarrow>
        lookup2 (dailyRevisionScores ?M) k j = Some (Num x)"
    using sum_to_double_safe [of x] by (simp add: dsl del: lookup2.simps)
  have dsn: "lookup2 (dailyRevisionScores incoming) k j = None \<longrightarrow>
        lookup2 (dailyRevisionScores ?M) k j = None"
    by (simp add: dsl del: lookup2.simps)
  have ph: "opt_get (practiceHistory ?M) k = opt_get (practiceHistory incoming) k"
    using map_of_merge_practiceHistory [of "practiceHistory ?E" "practiceHistory incoming" k] kk
    by (simp add: merge_def e split: option.splits)
  have rp0: "(opt_get (revisionProgress ?M) k = None) =
      (opt_get (revisionProgress incoming) k = None)"
    using map_of_merge_revisionProgress [of "revisionProgress ?E" "revisionProgress incoming" k] kk
    by (simp add: merge_def e split: option.splits)
  have kp: "k \<notin> set inherited \<or> opt_get (revisionProgress incoming) k = None"
    using kk by simp
  have rp: "lookup2 (revisionProgress ?M) k j = lookup2 (revisionProgress incoming) k j"
    using lookup2_merge_revisionProgress
      [OF kp jp, of "revisionProgress ?E"]
    by (simp add: merge_def e split: option.splits)
  have m: "reports ?M = fold push_report (reports incoming) []"
    by (simp add: reports_merge e)
  have rq: "distinct (map reportId (reports incoming)) \<longrightarrow> reports ?M = reports incoming"
    using fold_push_report_distinct [of "[]" "reports incoming"] by (simp add: m)
  obtain new where new: "fold push_report (reports incoming) [] = new"
    "subseq new (reports incoming)" "distinct (map reportId new)"
    "reportId ` set new = reportId ` set (reports incoming)"
    "\<forall>r\<in>set new. find (\<lambda>x. reportId x = reportId r) (reports incoming) = Some r"
    using fold_push_report [of "reports incoming" "[]"] by auto
  have mn: "reports ?M = new" using new(1) by (simp add: m)
  have sub: "subseq (reports ?M) (reports incoming)" using new(2) by (simp add: mn)
  have dist: "distinct (map reportId (reports ?M))" using new(3) by (simp add: mn)
  have first: "\<forall>r\<in>set (reports ?M).
      find (\<lambda>x. reportId x = reportId r) (reports incoming) = Some r"
    using new(5) by (simp add: mn)
  have ids: "reportId ` set (reports ?M) = reportId ` set (reports incoming)"
    using new(4) by (simp add: mn)
  have omitted:
    "questionSets incoming = None \<longrightarrow> questionSets ?M = Some []"
    "playerProfiles incoming = None \<longrightarrow> playerProfiles ?M = Some []"
    "dailyRevisionScores incoming = None \<longrightarrow> dailyRevisionScores ?M = Some []"
    "practiceHistory incoming = None \<longrightarrow> practiceHistory ?M = Some []"
    "revisionProgress incoming = None \<longrightarrow> revisionProgress ?M = Some []"
    "reportedQuestions incoming = None \<longrightarrow> reportedQuestions ?M = Some []"
    by (simp_all add: merge_def e empty_doc_def merge_questionSets_def
        merge_playerProfiles_def merge_dailyRevisionScores_def merge_practiceHistory_def
        merge_revisionProgress_def merge_reportedQuestions_def spread_into_def)
  show ?thesis
    unfolding or_empty_doc.simps
    by (intro conjI) (fact qs pp ds0 ds dsn ph rp0 rp rq sub dist first ids omitted)+
qed

text \<open>
  The amended C7 at an incoming document that has two reports with distinct
  \<^verbatim>\<open>reportId\<close>s and omits every other field.
\<close>

theorem merge_into_absent_stored_witness:
  "plain_outer_keys (only_reportedQuestions
       [\<lparr>reportId = ''r1'', report_rest = ''a''\<rparr>, \<lparr>reportId = ''r2'', report_rest = ''b''\<rparr>])
   \<and> ''k'' \<notin> set inherited
   \<and> distinct (map reportId (reports (only_reportedQuestions
       [\<lparr>reportId = ''r1'', report_rest = ''a''\<rparr>, \<lparr>reportId = ''r2'', report_rest = ''b''\<rparr>])))
   \<and> questionSets (only_reportedQuestions
       [\<lparr>reportId = ''r1'', report_rest = ''a''\<rparr>, \<lparr>reportId = ''r2'', report_rest = ''b''\<rparr>])
       = None
   \<and> reports (merge ''t'' (or_empty_doc None) (only_reportedQuestions
       [\<lparr>reportId = ''r1'', report_rest = ''a''\<rparr>, \<lparr>reportId = ''r2'', report_rest = ''b''\<rparr>]))
       = [\<lparr>reportId = ''r1'', report_rest = ''a''\<rparr>, \<lparr>reportId = ''r2'', report_rest = ''b''\<rparr>]
   \<and> questionSets (merge ''t'' (or_empty_doc None) (only_reportedQuestions
       [\<lparr>reportId = ''r1'', report_rest = ''a''\<rparr>, \<lparr>reportId = ''r2'', report_rest = ''b''\<rparr>]))
       = Some []"
proof -
  let ?I = "only_reportedQuestions
       [\<lparr>reportId = ''r1'', report_rest = ''a''\<rparr>, \<lparr>reportId = ''r2'', report_rest = ''b''\<rparr>]"
  have r: "reports ?I =
      [\<lparr>reportId = ''r1'', report_rest = ''a''\<rparr>, \<lparr>reportId = ''r2'', report_rest = ''b''\<rparr>]"
    by (simp add: reports_def only_reportedQuestions_def)
  have d: "distinct (map reportId (reports ?I))" by (simp add: r)
  have q: "questionSets ?I = None" by (simp add: only_reportedQuestions_def empty_doc_def)
  have pk: "plain_outer_keys ?I"
    by (simp add: plain_outer_keys_def only_reportedQuestions_def empty_doc_def)
  have kk: "''k'' \<notin> set inherited" by (simp add: inherited_def)
  from merge_into_absent_stored [OF pk kk kk, where now = "''t''"] d q
  have "reports (merge ''t'' (or_empty_doc None) ?I) = reports ?I"
    and "questionSets (merge ''t'' (or_empty_doc None) ?I) = Some []"
    by blast+
  with pk kk d q r show ?thesis by simp
qed

text \<open>
  C7 as stated fails for \<^verbatim>\<open>reportedQuestions\<close> when two incoming reports share a
  \<^verbatim>\<open>reportId\<close>: the second one is dropped, so the merged sequence is not the incoming one.
  It also fails for a key inherited from \<^verbatim>\<open>Object.prototype\<close>: the incoming
  \<^verbatim>\<open>practiceHistory\<close> record at the key \<open>constructor\<close> is not inserted.
\<close>

theorem merge_into_absent_stored_drops_repeated_report:
  "reportedQuestions (only_reportedQuestions
       [\<lparr>reportId = ''r1'', report_rest = ''a''\<rparr>, \<lparr>reportId = ''r1'', report_rest = ''b''\<rparr>])
     = Some [\<lparr>reportId = ''r1'', report_rest = ''a''\<rparr>, \<lparr>reportId = ''r1'', report_rest = ''b''\<rparr>]
   \<and> reportedQuestions (merge ''t'' (or_empty_doc None) (only_reportedQuestions
       [\<lparr>reportId = ''r1'', report_rest = ''a''\<rparr>, \<lparr>reportId = ''r1'', report_rest = ''b''\<rparr>]))
     = Some [\<lparr>reportId = ''r1'', report_rest = ''a''\<rparr>]
   \<and> opt_get (practiceHistory (only_practiceHistory [(''constructor'', JStr ''x'')] :: string doc))
        ''constructor'' = Some (JStr ''x'')
   \<and> opt_get (practiceHistory (merge ''t'' (or_empty_doc None)
        (only_practiceHistory [(''constructor'', JStr ''x'')] :: string doc))) ''constructor''
     = None"
  by (simp add: merge_def merge_reportedQuestions_def push_report_def
      merge_practiceHistory_def merge_attempt_def spread_into_def js_read_def js_assign_def
      inherited_def only_reportedQuestions_def only_practiceHistory_def empty_doc_def)

text \<open>
  C8. The merged \<^verbatim>\<open>questionSets\<close> has every key of the stored and every key of the
  incoming \<^verbatim>\<open>questionSets\<close>; at a key of the incoming document it holds the incoming
  value, also when the stored document has the key; at any other key it holds what the
  stored document has.
\<close>

theorem questionSets_union_incoming_wins:
  "(opt_get (questionSets stored) k = Some s \<longrightarrow>
      opt_get (questionSets (merge now stored incoming)) k \<noteq> None)
   \<and> (opt_get (questionSets incoming) k = Some v \<longrightarrow>
      opt_get (questionSets (merge now stored incoming)) k = Some v)
   \<and> (opt_get (questionSets incoming) k = None \<longrightarrow>
      opt_get (questionSets (merge now stored incoming)) k =
      opt_get (questionSets stored) k)"
  using map_of_merge_questionSets [of "questionSets stored" "questionSets incoming" k]
  by (auto simp: merge_def split: option.splits)

text \<open>C8 at stored \<^verbatim>\<open>{a: 1, b: 2}\<close> and incoming \<^verbatim>\<open>{b: 3, c: 4}\<close>.\<close>

theorem questionSets_union_incoming_wins_witness:
  "opt_get (questionSets (only_questionSets [(''a'', 1::nat), (''b'', 2)])) ''a'' = Some 1
   \<and> opt_get (questionSets (only_questionSets [(''b'', 3::nat), (''c'', 4)])) ''b'' = Some 3
   \<and> opt_get (questionSets (only_questionSets [(''b'', 3::nat), (''c'', 4)])) ''a'' = None
   \<and> opt_get (questionSets (merge ''t''
         (only_questionSets [(''a'', 1::nat), (''b'', 2)])
         (only_questionSets [(''b'', 3), (''c'', 4)]))) ''b'' = Some 3
   \<and> opt_get (questionSets (merge ''t''
         (only_questionSets [(''a'', 1::nat), (''b'', 2)])
         (only_questionSets [(''b'', 3), (''c'', 4)]))) ''a'' = Some 1"
  using questionSets_union_incoming_wins
      [where stored = "only_questionSets [(''a'', 1::nat), (''b'', 2)]"
         and incoming = "only_questionSets [(''b'', 3), (''c'', 4)]"
         and k = "''a''" and s = 1 and v = 1 and now = "''t''"]
    questionSets_union_incoming_wins
      [where stored = "only_questionSets [(''a'', 1::nat), (''b'', 2)]"
         and incoming = "only_questionSets [(''b'', 3), (''c'', 4)]"
         and k = "''b''" and s = 2 and v = 3 and now = "''t''"]
  by (simp add: only_questionSets_def empty_doc_def)

text \<open>
  C9. The merged document of a POST has \<^verbatim>\<open>_id\<close> equal to \<^verbatim>\<open>main\<close>, the five mapping
  fields, the sequence \<^verbatim>\<open>reportedQuestions\<close> and \<^verbatim>\<open>lastUpdated\<close>, whatever the stored and
  the incoming document hold; when the stored document is absent and the incoming one
  omits every field, the mappings and the sequence are empty.
\<close>

theorem merged_document_has_every_field:
  "doc_id (merge now stored incoming) = Some ''main''
   \<and> (\<exists>qs. questionSets (merge now stored incoming) = Some qs)
   \<and> (\<exists>ps. playerProfiles (merge now stored incoming) = Some ps)
   \<and> (\<exists>ds. dailyRevisionScores (merge now stored incoming) = Some ds)
   \<and> (\<exists>h. practiceHistory (merge now stored incoming) = Some h)
   \<and> (\<exists>rp. revisionProgress (merge now stored incoming) = Some rp)
   \<and> (\<exists>rs. reportedQuestions (merge now stored incoming) = Some rs)
   \<and> lastUpdated (merge now stored incoming) = Some now
   \<and> merge now (or_empty_doc None) empty_doc =
       \<lparr>doc_id = Some ''main'', questionSets = Some [], playerProfiles = Some [],
        dailyRevisionScores = Some [], practiceHistory = Some [], revisionProgress = Some [],
        reportedQuestions = Some [], lastUpdated = Some now\<rparr>"
  by (simp add: merge_def empty_doc_def merge_questionSets_def
      merge_playerProfiles_def merge_dailyRevisionScores_def merge_practiceHistory_def
      merge_revisionProgress_def merge_reportedQuestions_def spread_into_def)

section \<open>Claims about the handler\<close>

text \<open>
  C10, as amended. An OPTIONS request is answered with status 200 and an empty body,
  without a database call and without a change of the server state. A request whose
  method is none of GET, POST and OPTIONS is answered with status 405 and the error
  body ``Method not allowed'' when a client is cached or connecting succeeds, and with
  status 500 when connecting fails, because the handler connects before it looks at the
  method; in both cases the stored document is unchanged and \<^verbatim>\<open>updateOne\<close> is not
  called. Every response carries the same CORS headers.
\<close>

theorem handler_other_methods:
  "(httpMethod event = ''OPTIONS'' \<longrightarrow>
      handler env now event srv =
        (\<lparr>statusCode = 200, headers = cors_headers, body = EmptyBody\<rparr>, srv, []))
   \<and> (httpMethod event \<notin> {''GET'', ''POST'', ''OPTIONS''} \<longrightarrow>
      statusCode (fst (handler env now event srv)) =
        (if cachedClient srv \<or> connect_ok env then 405 else 500)
      \<and> body (fst (handler env now event srv)) =
        ErrorBody (if cachedClient srv \<or> connect_ok env
                   then ''Method not allowed'' else ''Internal server error'')
      \<and> store (fst (snd (handler env now event srv))) = store srv
      \<and> UpdateOne \<notin> set (snd (snd (handler env now event srv))))
   \<and> headers (fst (handler env now event srv)) = cors_headers"
proof -
  have opt: "handler env now event srv =
        (\<lparr>statusCode = 200, headers = cors_headers, body = EmptyBody\<rparr>, srv, [])"
    if "httpMethod event = ''OPTIONS''"
    using that by (simp add: handler_def)
  have other: "statusCode (fst (handler env now event srv)) =
        (if cachedClient srv \<or> connect_ok env then 405 else 500)
      \<and> body (fst (handler env now event srv)) =
        ErrorBody (if cachedClient srv \<or> connect_ok env
                   then ''Method not allowed'' else ''Internal server error'')
      \<and> store (fst (snd (handler env now event srv))) = store srv
      \<and> UpdateOne \<notin> set (snd (snd (handler env now event srv)))"
    if "httpMethod event \<notin> {''GET'', ''POST'', ''OPTIONS''}"
  proof -
    from that have m: "httpMethod event \<noteq> ''GET''" "httpMethod event \<noteq> ''POST''"
      "httpMethod event \<noteq> ''OPTIONS''"
      by auto
    show ?thesis
      by (simp add: handler_def connectToDatabase_def internal_error_def m)
  qed
  have hd: "headers (fst (handler env now event srv)) = cors_headers"
    by (simp add: handler_def connectToDatabase_def internal_error_def Let_def
        split: option.splits)
  from opt other hd show ?thesis by blast
qed

text \<open>
  The amended C10 at an OPTIONS request and at a DELETE request, both on a server that
  has no cached client and can connect.
\<close>

theorem handler_other_methods_witness:
  "httpMethod (\<lparr>httpMethod = ''OPTIONS'', parsed_body = None\<rparr> :: unit event) = ''OPTIONS''
   \<and> httpMethod (\<lparr>httpMethod = ''DELETE'', parsed_body = None\<rparr> :: unit event)
        \<notin> {''GET'', ''POST'', ''OPTIONS''}
   \<and> handler \<lparr>connect_ok = True, find_ok = True, update_ok = True\<rparr> ''t''
        (\<lparr>httpMethod = ''OPTIONS'', parsed_body = None\<rparr> :: unit event)
        \<lparr>cachedClient = False, store = None\<rparr>
      = (\<lparr>statusCode = 200, headers = cors_headers, body = EmptyBody\<rparr>,
         \<lparr>cachedClient = False, store = None\<rparr>, [])
   \<and> statusCode (fst (handler \<lparr>connect_ok = True, find_ok = True, update_ok = True\<rparr> ''t''
        (\<lparr>httpMethod = ''DELETE'', parsed_body = None\<rparr> :: unit event)
        \<lparr>cachedClient = False, store = None\<rparr>)) = 405
   \<and> headers (fst (handler \<lparr>connect_ok = True, find_ok = True, update_ok = True\<rparr> ''t''
        (\<lparr>httpMethod = ''DELETE'', parsed_body = None\<rparr> :: unit event)
        \<lparr>cachedClient = False, store = None\<rparr>)) = cors_headers"
proof -
  let ?env = "\<lparr>connect_ok = True, find_ok = True, update_ok = True\<rparr>"
  let ?srv = "\<lparr>cachedClient = False, store = None\<rparr> :: unit server"
  let ?opt = "\<lparr>httpMethod = ''OPTIONS'', parsed_body = None\<rparr> :: unit event"
  let ?del = "\<lparr>httpMethod = ''DELETE'', parsed_body = None\<rparr> :: unit event"
  have a: "httpMethod ?opt = ''OPTIONS''" by simp
  have b: "httpMethod ?del \<notin> {''GET'', ''POST'', ''OPTIONS''}" by simp
  from handler_other_methods [where event = ?opt and env = ?env and srv = ?srv and now = "''t''"] a
  have c: "handler ?env ''t'' ?opt ?srv =
      (\<lparr>statusCode = 200, headers = cors_headers, body = EmptyBody\<rparr>, ?srv, [])"
    by blast
  from handler_other_methods [where event = ?del and env = ?env and srv = ?srv and now = "''t''"] b
  have d: "statusCode (fst (handler ?env ''t'' ?del ?srv)) =
        (if cachedClient ?srv \<or> connect_ok ?env then 405 else 500)"
    and e: "headers (fst (handler ?env ''t'' ?del ?srv)) = cors_headers"
    by blast+
  from d have f: "statusCode (fst (handler ?env ''t'' ?del ?srv)) = 405"
    by simp
  from a b c e f show ?thesis by blast
qed

text \<open>
  C10 as stated fails when the database cannot be reached: a DELETE request on a server
  without a cached client whose connection attempt fails is answered with status 500,
  not 405.
\<close>

theorem handler_delete_without_database:
  "httpMethod (\<lparr>httpMethod = ''DELETE'', parsed_body = None\<rparr> :: unit event)
        \<notin> {''GET'', ''POST'', ''OPTIONS''}
   \<and> statusCode (fst (handler \<lparr>connect_ok = False, find_ok = True, update_ok = True\<rparr> ''t''
        (\<lparr>httpMethod = ''DELETE'', parsed_body = None\<rparr> :: unit event)
        \<lparr>cachedClient = False, store = None\<rparr>)) = 500"
  by (simp add: handler_def connectToDatabase_def internal_error_def)

end
